theory Spec2Isabelle
  imports Complex_Main "HOL-Library.AList"
begin

section \<open>Values, events and errors\<close>

text \<open>
  The program is \<^verbatim>\<open>src/scraper.js\<close> (\<^verbatim>\<open>handleDiagnostic\<close>, \<^verbatim>\<open>runCanvasScraper\<close>) and
  \<^verbatim>\<open>src/login.js\<close> (\<^verbatim>\<open>loginToCanvas\<close>). The analysis of a question is whatever
  \<^verbatim>\<open>JSON.parse\<close> returns for the model's reply, so it is a JavaScript value; the code
  inspects it with \<^verbatim>\<open>===\<close>, truthiness, \<^verbatim>\<open>Array.isArray\<close> and \<^verbatim>\<open>typeof\<close>.
  \<open>JUndefined\<close> is the value of a property that is not there.
\<close>

datatype json =
    JUndefined
  | JNull
  | JBool bool
  | JNum rat
  | JStr string
  | JArr "json list"
  | JObj "(string \<times> json) list"

text \<open>Property read \<^verbatim>\<open>v.k\<close> on a value that is neither \<^verbatim>\<open>null\<close> nor \<^verbatim>\<open>undefined\<close>
  (on those the read throws a TypeError, see \<open>processQuestion\<close>). Only the names
  \<^verbatim>\<open>correctAnswer\<close>, \<^verbatim>\<open>questionType\<close> and \<^verbatim>\<open>options\<close> are ever read, which no
  primitive and no array carries. The list of a \<open>JObj\<close> holds the properties of the
  object, each name once.\<close>

fun field :: "json \<Rightarrow> string \<Rightarrow> json" where
  "field (JObj kvs) k = (case map_of kvs k of Some v \<Rightarrow> v | None \<Rightarrow> JUndefined)"
| "field _ k = JUndefined"

text \<open>Property write \<^verbatim>\<open>v.k = x\<close>; the code writes only to an analysis that has a
  \<^verbatim>\<open>questionType\<close>, hence to an object.\<close>

fun setField :: "json \<Rightarrow> string \<Rightarrow> json \<Rightarrow> json" where
  "setField (JObj kvs) k x = JObj (AList.update k x kvs)"
| "setField v k x = v"

text \<open>JavaScript truthiness. A parsed number is falsy exactly when it is zero.\<close>

fun truthy :: "json \<Rightarrow> bool" where
  "truthy JUndefined = False"
| "truthy JNull = False"
| "truthy (JBool b) = b"
| "truthy (JNum r) = (r \<noteq> 0)"
| "truthy (JStr s) = (s \<noteq> [])"
| "truthy (JArr xs) = True"
| "truthy (JObj kvs) = True"

text \<open>The awaited calls on the page, the file system, the model and the browser session,
  in the order the program makes them, and the log line that opens the processing of a
  question (line 44 of \<^verbatim>\<open>scraper.js\<close>).\<close>

datatype event =
    Mkdir
  | QuestionStart int
  | WaitForLoadState
  | Screenshot
  | WriteFile
  | LlmRequest
  | Click string
  | WaitForTimeout
  | SessionCreate
  | ConnectOverCDP
  | FirstPage
  | Goto
  | WaitForSelector string
  | Fill string
  | WaitForURL
  | TextContent string
  | BrowserClose

datatype error =
    Rejected event
  | TypeError
  | SyntaxError
  | NoLlmContent int
  | NextClickFailed int
  | SubmitClickFailed int
  | LoginFailed

text \<open>An asynchronous computation either returns a value or throws, and leaves the
  calls it made.\<close>

type_synonym 'a io = "(error + 'a) \<times> event list"

definition return :: "'a \<Rightarrow> 'a io" where
  "return x = (Inr x, [])"

definition throw :: "error \<Rightarrow> 'a io" where
  "throw e = (Inl e, [])"

text \<open>\<open>call ev ok\<close>: the awaited call \<open>ev\<close> is made; it resolves when \<open>ok\<close> and rejects
  otherwise.\<close>

definition call :: "event \<Rightarrow> bool \<Rightarrow> unit io" where
  "call ev ok = (if ok then Inr () else Inl (Rejected ev), [ev])"

definition bind :: "'a io \<Rightarrow> ('a \<Rightarrow> 'b io) \<Rightarrow> 'b io" where
  "bind m f =
     (case m of
        (Inl e, tr) \<Rightarrow> (Inl e, tr)
      | (Inr x, tr) \<Rightarrow> (case f x of (r, tr') \<Rightarrow> (r, tr @ tr')))"

definition seq :: "'a io \<Rightarrow> 'b io \<Rightarrow> 'b io" where
  "seq m k = bind m (\<lambda>_. k)"

text \<open>\<^verbatim>\<open>try { m } catch (error) { h }\<close>\<close>

definition try_catch :: "'a io \<Rightarrow> (error \<Rightarrow> 'a io) \<Rightarrow> 'a io" where
  "try_catch m h =
     (case m of
        (Inl e, tr) \<Rightarrow> (case h e of (r, tr') \<Rightarrow> (r, tr @ tr'))
      | (Inr x, tr) \<Rightarrow> (Inr x, tr))"

section \<open>The answer selection of \<^verbatim>\<open>handleDiagnostic\<close>\<close>

definition dquote :: char where
  "dquote = CHR 0x22"

definition backslash :: char where
  "backslash = CHR 0x5C"

text \<open>\<^verbatim>\<open>answerText.replace(/"/g, '\\"')\<close>\<close>

definition escapeQuotes :: "string \<Rightarrow> string" where
  "escapeQuotes s = concat (map (\<lambda>c. if c = dquote then [backslash, dquote] else [c]) s)"

text \<open>\<^verbatim>\<open>`label:has-text("${answerText.replace(/"/g, '\\"')}")`\<close>\<close>

definition mcOptionLabelSelector :: "string \<Rightarrow> string" where
  "mcOptionLabelSelector answerText =
     ''label:has-text('' @ [dquote] @ escapeQuotes answerText @ [dquote] @ '')''"

definition NEXT_QUESTION_BUTTON_SELECTOR :: string where
  "NEXT_QUESTION_BUTTON_SELECTOR =
     ''button.Button.submit_button.next-question:has-text('' @ [dquote] @ ''Next'' @ [dquote] @ '')''"

definition SUBMIT_QUIZ_BUTTON_SELECTOR :: string where
  "SUBMIT_QUIZ_BUTTON_SELECTOR =
     ''button#submit_quiz_button:has-text('' @ [dquote] @ ''Submit Quiz'' @ [dquote] @ '')''"

text \<open>What the outside world does during one question: which awaited calls resolve, and
  what the model replies. The \<open>k\<close>-th option click of the question (from 0) resolves when
  \<open>optionClickOk k\<close>; the diagnostic screenshot taken after its failure resolves when
  \<open>optionErrShotOk k\<close>.\<close>

datatype llm_reply =
    LlmRejects        \<comment> \<open>the request rejects\<close>
  | LlmNoContent      \<comment> \<open>\<^verbatim>\<open>choices[0]?.message?.content\<close> is falsy\<close>
  | LlmBadJson        \<comment> \<open>\<^verbatim>\<open>JSON.parse\<close> throws\<close>
  | LlmJson json      \<comment> \<open>\<^verbatim>\<open>JSON.parse\<close> returns this value\<close>

record question_env =
  idleOk :: bool
  shotOk :: bool
  writeOk :: bool
  llm :: llm_reply
  optionClickOk :: "nat \<Rightarrow> bool"
  optionErrShotOk :: "nat \<Rightarrow> bool"
  nextClickOk :: bool
  nextIdleOk :: bool
  settleOk :: bool
  nextShotOk :: bool
  nextWriteOk :: bool
  nextErrShotOk :: bool
  submitClickOk :: bool
  submitErrShotOk :: bool

definition isChoiceType :: "json \<Rightarrow> bool" where
  "isChoiceType qt \<longleftrightarrow>
     qt = JStr ''multiple-choice-single'' \<or> qt = JStr ''multiple-choice''
     \<or> qt = JStr ''multiple-choice-multiple''"

text \<open>Lines 107 to 120: the fallback to the first option.\<close>

definition applyFallback :: "json \<Rightarrow> json" where
  "applyFallback a =
     (if field a ''correctAnswer'' = JNull \<and> isChoiceType (field a ''questionType'')
      then (case field a ''options'' of
              JArr (fallbackAnswer # rest) \<Rightarrow>
                if field a ''questionType'' = JStr ''multiple-choice-multiple''
                then setField a ''correctAnswer'' (JArr [fallbackAnswer])
                else setField a ''correctAnswer'' fallbackAnswer
            | _ \<Rightarrow> a)
      else a)"

text \<open>Lines 130 to 137 and 143 to 149: one option click inside its own
  \<^verbatim>\<open>try\<close>; the handler logs and takes a screenshot, which is awaited outside any
  \<^verbatim>\<open>try\<close>.\<close>

definition clickOption :: "question_env \<Rightarrow> nat \<Rightarrow> string \<Rightarrow> unit io" where
  "clickOption qe k answerText =
     try_catch (call (Click (mcOptionLabelSelector answerText)) (optionClickOk qe k))
       (\<lambda>err. call Screenshot (optionErrShotOk qe k))"

text \<open>Lines 127 to 138: the loop over the answers of a multiple-selection question.
  \<^verbatim>\<open>answerText.replace\<close> (line 129, outside the \<^verbatim>\<open>try\<close>) throws a TypeError on
  anything that is not a string.\<close>

fun clickEachAnswer :: "question_env \<Rightarrow> nat \<Rightarrow> json list \<Rightarrow> unit io" where
  "clickEachAnswer qe k [] = return ()"
| "clickEachAnswer qe k (JStr answerText # answers) =
     seq (clickOption qe k answerText) (clickEachAnswer qe (Suc k) answers)"
| "clickEachAnswer qe k (other # answers) = throw TypeError"

definition isArray :: "json \<Rightarrow> bool" where
  "isArray v = (case v of JArr xs \<Rightarrow> True | _ \<Rightarrow> False)"

definition elements :: "json \<Rightarrow> json list" where
  "elements v = (case v of JArr xs \<Rightarrow> xs | _ \<Rightarrow> [])"

text \<open>Lines 124 to 158. The two last branches only log a warning.\<close>

definition selectAnswer :: "question_env \<Rightarrow> json \<Rightarrow> unit io" where
  "selectAnswer qe a =
     (let questionType = field a ''questionType''; correctAnswer = field a ''correctAnswer''
      in if isChoiceType questionType \<and> truthy correctAnswer
         then (if questionType = JStr ''multiple-choice-multiple'' \<and> isArray correctAnswer
               then clickEachAnswer qe 0 (elements correctAnswer)
               else (case correctAnswer of
                       JStr answerText \<Rightarrow> clickOption qe 0 answerText
                     | _ \<Rightarrow> return ()))
         else if questionType = JStr ''free-response'' then return ()
         else return ())"

text \<open>The selectors of the clicks in a trace, in order.\<close>

fun clickOf :: "event \<Rightarrow> string list" where
  "clickOf (Click sel) = [sel]"
| "clickOf _ = []"

definition clicks :: "event list \<Rightarrow> string list" where
  "clicks tr = concat (map clickOf tr)"

section \<open>One question, and the loop of \<^verbatim>\<open>handleDiagnostic\<close>\<close>

text \<open>The values of the variable \<^verbatim>\<open>actionTaken\<close> (line 161 and the assignments that
  follow it).\<close>

datatype action =
    unknown
  | next_question_clicked
  | error_clicking_next
  | quiz_submitted
  | error_clicking_submit

record outcome =
  questionIndex :: int
  llmAnalysis :: json
  actionTaken :: action

text \<open>Lines 160 to 201. The \<^verbatim>\<open>try\<close> around the Next click also holds the wait, the
  settle delay and the second screenshot; each handler takes a screenshot and throws. The
  handlers assign \<^verbatim>\<open>error_clicking_next\<close> and \<^verbatim>\<open>error_clicking_submit\<close> to
  \<^verbatim>\<open>actionTaken\<close> (lines 185 and 198) right before they throw, so these values never
  reach line 203.\<close>

definition terminalAction :: "question_env \<Rightarrow> int \<Rightarrow> int \<Rightarrow> action io" where
  "terminalAction qe qIndex maxQuestionsToProcess =
     (if qIndex < maxQuestionsToProcess
      then try_catch
             (seq (call (Click NEXT_QUESTION_BUTTON_SELECTOR) (nextClickOk qe))
             (seq (call WaitForLoadState (nextIdleOk qe))
             (seq (call WaitForTimeout (settleOk qe))
             (seq (call Screenshot (nextShotOk qe))
             (seq (call WriteFile (nextWriteOk qe))
                  (return next_question_clicked))))))
             (\<lambda>err. seq (call Screenshot (nextErrShotOk qe))
                         (throw (NextClickFailed qIndex)))
      else try_catch
             (seq (call (Click SUBMIT_QUIZ_BUTTON_SELECTOR) (submitClickOk qe))
                  (return quiz_submitted))
             (\<lambda>err. seq (call Screenshot (submitErrShotOk qe))
                         (throw (SubmitClickFailed qIndex))))"

text \<open>Lines 86 to 104: the request, the check of the content, \<^verbatim>\<open>JSON.parse\<close>.\<close>

definition askLlm :: "question_env \<Rightarrow> int \<Rightarrow> json io" where
  "askLlm qe qIndex =
     (case llm qe of
        LlmRejects \<Rightarrow> (Inl (Rejected LlmRequest), [LlmRequest])
      | LlmNoContent \<Rightarrow> (Inl (NoLlmContent qIndex), [LlmRequest])
      | LlmBadJson \<Rightarrow> (Inl SyntaxError, [LlmRequest])
      | LlmJson v \<Rightarrow> (Inr v, [LlmRequest]))"

text \<open>Lines 43 to 207: the body of the loop up to the entry that is pushed. Reading
  \<^verbatim>\<open>questionLlmAnalysis.correctAnswer\<close> on line 108 throws when the parsed value is
  \<^verbatim>\<open>null\<close>.\<close>

definition processQuestion :: "question_env \<Rightarrow> int \<Rightarrow> int \<Rightarrow> outcome io" where
  "processQuestion qe qIndex maxQuestionsToProcess =
     seq (call (QuestionStart qIndex) True)
    (seq (call WaitForLoadState (idleOk qe))
    (seq (call Screenshot (shotOk qe))
    (seq (call WriteFile (writeOk qe))
    (bind (askLlm qe qIndex) (\<lambda>parsed.
       if parsed = JNull \<or> parsed = JUndefined then throw TypeError
       else (let questionLlmAnalysis = applyFallback parsed in
         seq (selectAnswer qe questionLlmAnalysis)
        (bind (terminalAction qe qIndex maxQuestionsToProcess) (\<lambda>act.
           return \<lparr>questionIndex = qIndex,
                   llmAnalysis = questionLlmAnalysis,
                   actionTaken = act\<rparr>))))))))"

text \<open>Lines 42 to 219: the \<^verbatim>\<open>for\<close> loop with its counter \<open>i\<close> and the array
  \<^verbatim>\<open>diagnosticData\<close>; \<open>qs j\<close> is what the outside world does during question \<open>j\<close>.
  The result is what the loop returns or throws, the array as it is when the loop is
  left, and the calls made. The count and the counter are integers.\<close>

function questionLoop ::
  "(int \<Rightarrow> question_env) \<Rightarrow> int \<Rightarrow> int \<Rightarrow> outcome list
     \<Rightarrow> (error + outcome list) \<times> outcome list \<times> event list" where
  "questionLoop qs maxQuestionsToProcess i diagnosticData =
     (if i < maxQuestionsToProcess
      then (case processQuestion (qs (i + 1)) (i + 1) maxQuestionsToProcess of
              (Inl err, tr) \<Rightarrow> (Inl err, diagnosticData, tr)
            | (Inr entry, tr) \<Rightarrow>
                if actionTaken entry = quiz_submitted
                then (Inr (diagnosticData @ [entry]), diagnosticData @ [entry], tr)
                else (case questionLoop qs maxQuestionsToProcess (i + 1)
                             (diagnosticData @ [entry]) of
                        (res, final, tr') \<Rightarrow> (res, final, tr @ tr')))
      else (Inr diagnosticData, diagnosticData, []))"
  by pat_completeness auto
termination
  by (relation "measure (\<lambda>(qs, maxQuestionsToProcess, i, diagnosticData).
                  nat (maxQuestionsToProcess - i))") auto

declare questionLoop.simps [simp del]

text \<open>\<^verbatim>\<open>handleDiagnostic(page, maxQuestionsToProcess)\<close>: the directory, the loop, and the
  handler of lines 221 to 227, which logs and throws the error again. Its caller receives
  the first component only: the array when the function returns, the error when it throws.\<close>

definition handleDiagnostic ::
  "bool \<Rightarrow> (int \<Rightarrow> question_env) \<Rightarrow> int \<Rightarrow> outcome list io" where
  "handleDiagnostic dirOk qs maxQuestionsToProcess =
     try_catch
       (seq (call Mkdir dirOk)
            (case questionLoop qs maxQuestionsToProcess 0 [] of
               (res, final, tr) \<Rightarrow> (res, tr)))
       (\<lambda>err. throw err)"

text \<open>The array \<^verbatim>\<open>diagnosticData\<close> at the moment \<^verbatim>\<open>handleDiagnostic\<close> returns or
  throws.\<close>

definition diagnosticDataAtExit :: "bool \<Rightarrow> (int \<Rightarrow> question_env) \<Rightarrow> int \<Rightarrow> outcome list" where
  "diagnosticDataAtExit dirOk qs maxQuestionsToProcess =
     (if dirOk then fst (snd (questionLoop qs maxQuestionsToProcess 0 [])) else [])"

text \<open>The indices of the questions whose processing was started, in order.\<close>

fun startOf :: "event \<Rightarrow> int list" where
  "startOf (QuestionStart j) = [j]"
| "startOf _ = []"

definition questionStarts :: "event list \<Rightarrow> int list" where
  "questionStarts tr = concat (map startOf tr)"

section \<open>\<^verbatim>\<open>loginToCanvas\<close> and \<^verbatim>\<open>runCanvasScraper\<close>\<close>

record login_env =
  sessionOk :: bool
  connectOk :: bool
  firstPageOk :: bool
  gotoOk :: bool
  usernameVisibleOk :: bool
  fillUsernameOk :: bool
  fillPasswordOk :: bool
  loginClickOk :: bool
  waitUrlOk :: bool
  loginCloseOk :: bool

definition USERNAME_SELECTOR :: string where
  "USERNAME_SELECTOR = ''input#username''"

definition PASSWORD_SELECTOR :: string where
  "PASSWORD_SELECTOR = ''input#password''"

definition LOGIN_BUTTON_SELECTOR :: string where
  "LOGIN_BUTTON_SELECTOR =
     ''button[data-testid='' @ [dquote] @ ''login-button'' @ [dquote] @ '']''"

text \<open>The \<^verbatim>\<open>try\<close> block of \<^verbatim>\<open>loginToCanvas\<close> (lines 34 to 73 of \<^verbatim>\<open>login.js\<close>), with the
  variable \<^verbatim>\<open>browser\<close> as second component: it is assigned when
  \<^verbatim>\<open>connectOverCDP\<close> resolves. \<open>FirstPage\<close> is
  \<^verbatim>\<open>browser.contexts()[0].pages()[0]\<close>, which throws when there is no context.\<close>

definition loginSteps :: "login_env \<Rightarrow> unit io \<times> bool" where
  "loginSteps le =
     (if \<not> sessionOk le then (call SessionCreate False, False)
      else if \<not> connectOk le
      then (seq (call SessionCreate True) (call ConnectOverCDP False), False)
      else (seq (call SessionCreate True)
           (seq (call ConnectOverCDP True)
           (seq (call FirstPage (firstPageOk le))
           (seq (call Goto (gotoOk le))
           (seq (call (WaitForSelector USERNAME_SELECTOR) (usernameVisibleOk le))
           (seq (call (Fill USERNAME_SELECTOR) (fillUsernameOk le))
           (seq (call (Fill PASSWORD_SELECTOR) (fillPasswordOk le))
           (seq (call (Click LOGIN_BUTTON_SELECTOR) (loginClickOk le))
                (call WaitForURL (waitUrlOk le))))))))), True))"

text \<open>\<^verbatim>\<open>loginToCanvas()\<close>: on an error the handler (lines 75 to 87) closes the browser
  if there is one, swallowing a failure of the close, and throws.\<close>

definition loginToCanvas :: "login_env \<Rightarrow> unit io" where
  "loginToCanvas le =
     (case loginSteps le of
        (steps, browser) \<Rightarrow>
          try_catch steps
            (\<lambda>err. seq (if browser
                        then try_catch (call BrowserClose (loginCloseOk le)) (\<lambda>e. return ())
                        else return ())
                       (throw LoginFailed)))"

text \<open>The read of the question count: the text cannot be read, or \<^verbatim>\<open>parseInt\<close> gives
  \<^verbatim>\<open>NaN\<close> (\<open>None\<close>) or an integer.\<close>

datatype count_read =
    CountUnreadable
  | CountText "int option"

record run_env =
  screenshotDirOk :: bool
  login :: login_env
  startVisibleOk :: bool
  countRead :: count_read
  startClickOk :: bool
  startIdleOk :: bool
  diagnosticDirOk :: bool
  questions :: "int \<Rightarrow> question_env"
  closeOk :: bool

definition START_QUIZ_SELECTOR :: string where
  "START_QUIZ_SELECTOR =
     ''a.btn.btn-primary:has-text('' @ [dquote] @ ''Take the Quiz'' @ [dquote] @ '')''"

definition QUESTIONS_COUNT_SELECTOR :: string where
  "QUESTIONS_COUNT_SELECTOR =
     ''li:has(span.title:has-text('' @ [dquote] @ ''Questions'' @ [dquote] @ '')) > span.value''"

text \<open>Lines 262 to 268: the value of \<^verbatim>\<open>actualMaxQuestions\<close> after the check.\<close>

definition checkedCount :: "int option \<Rightarrow> int" where
  "checkedCount parsed =
     (case parsed of
        None \<Rightarrow> 1
      | Some n \<Rightarrow> if n \<le> 0 then 1 else n)"

text \<open>Lines 261 and 262: \<^verbatim>\<open>textContent\<close> and \<^verbatim>\<open>parseInt\<close>.\<close>

definition readCount :: "count_read \<Rightarrow> int option io" where
  "readCount c =
     (case c of
        CountUnreadable \<Rightarrow>
          (Inl (Rejected (TextContent QUESTIONS_COUNT_SELECTOR)),
           [TextContent QUESTIONS_COUNT_SELECTOR])
      | CountText parsed \<Rightarrow> (Inr parsed, [TextContent QUESTIONS_COUNT_SELECTOR]))"

text \<open>Lines 258 to 274: the handler logs and sets the count to 1.\<close>

definition scrapeMaxQuestions :: "count_read \<Rightarrow> int io" where
  "scrapeMaxQuestions c =
     try_catch
       (bind (readCount c) (\<lambda>parsed. return (checkedCount parsed)))
       (\<lambda>err. return 1)"

text \<open>Lines 249 to 292: what the \<^verbatim>\<open>try\<close> block does once the login has returned. The
  array that \<^verbatim>\<open>handleDiagnostic\<close> returns is not kept.\<close>

definition afterLogin :: "run_env \<Rightarrow> unit io" where
  "afterLogin env =
     seq (call (WaitForSelector START_QUIZ_SELECTOR) (startVisibleOk env))
    (bind (scrapeMaxQuestions (countRead env)) (\<lambda>actualMaxQuestions.
     seq (call (Click START_QUIZ_SELECTOR) (startClickOk env))
    (seq (call WaitForLoadState (startIdleOk env))
    (seq (handleDiagnostic (diagnosticDirOk env) (questions env) actualMaxQuestions)
         (return ())))))"

text \<open>The \<^verbatim>\<open>try\<close> block of \<^verbatim>\<open>runCanvasScraper\<close> (lines 240 to 292), with the variable
  \<^verbatim>\<open>loginResult\<close> as second component: it is assigned when the login returns.\<close>

definition scraperSteps :: "run_env \<Rightarrow> unit io \<times> bool" where
  "scraperSteps env =
     (case seq (call Mkdir (screenshotDirOk env)) (loginToCanvas (login env)) of
        (Inl err, tr) \<Rightarrow> ((Inl err, tr), False)
      | (Inr u, tr) \<Rightarrow> (seq (Inr u, tr) (afterLogin env), True))"

text \<open>\<^verbatim>\<open>runCanvasScraper()\<close>: the handler (lines 293 to 298) only logs, and the
  \<^verbatim>\<open>finally\<close> block closes the browser of \<^verbatim>\<open>loginResult\<close>. The function returns no
  value; it throws only when that close rejects.\<close>

definition runCanvasScraper :: "run_env \<Rightarrow> unit io" where
  "runCanvasScraper env =
     (case scraperSteps env of
        (steps, loginResult) \<Rightarrow>
          seq (try_catch steps (\<lambda>err. return ()))
              (if loginResult then call BrowserClose (closeOk env) else return ()))"

section \<open>Predicates and sample inputs used by the theorems\<close>

text \<open>The events that the processing of a question makes after its opening log line.\<close>

definition stepEvent :: "event \<Rightarrow> bool" where
  "stepEvent ev =
     (case ev of
        Click sel \<Rightarrow> True
      | Screenshot \<Rightarrow> True
      | WaitForLoadState \<Rightarrow> True
      | WaitForTimeout \<Rightarrow> True
      | WriteFile \<Rightarrow> True
      | LlmRequest \<Rightarrow> True
      | _ \<Rightarrow> False)"

text \<open>The action that an entry of index \<open>questionIndex e\<close> carries in a run over \<open>n\<close>
  questions.\<close>

definition expectedAction :: "int \<Rightarrow> outcome \<Rightarrow> bool" where
  "expectedAction n e \<longleftrightarrow>
     1 \<le> questionIndex e \<and> questionIndex e \<le> n \<and>
     actionTaken e = (if questionIndex e < n then next_question_clicked else quiz_submitted)"

text \<open>A single-choice analysis with an answer, and a question during which every call
  resolves and the model replies with the given analysis.\<close>

definition sampleAnalysis :: json where
  "sampleAnalysis =
     JObj [(''questionType'', JStr ''multiple-choice-single''),
           (''options'', JArr [JStr ''A'', JStr ''B'', JStr ''C'']),
           (''correctAnswer'', JStr ''B'')]"

definition goodQuestion :: "json \<Rightarrow> question_env" where
  "goodQuestion a =
     \<lparr>idleOk = True, shotOk = True, writeOk = True, llm = LlmJson a,
      optionClickOk = (\<lambda>k. True), optionErrShotOk = (\<lambda>k. True),
      nextClickOk = True, nextIdleOk = True, settleOk = True, nextShotOk = True,
      nextWriteOk = True, nextErrShotOk = True,
      submitClickOk = True, submitErrShotOk = True\<rparr>"

text \<open>A quiz whose second question cannot be left: its Next click fails.\<close>

definition failingSecond :: "int \<Rightarrow> question_env" where
  "failingSecond k =
     (if k = 2 then (goodQuestion sampleAnalysis)\<lparr>nextClickOk := False\<rparr>
      else goodQuestion sampleAnalysis)"

definition goodLogin :: login_env where
  "goodLogin =
     \<lparr>sessionOk = True, connectOk = True, firstPageOk = True, gotoOk = True,
      usernameVisibleOk = True, fillUsernameOk = True, fillPasswordOk = True,
      loginClickOk = True, waitUrlOk = True, loginCloseOk = True\<rparr>"

text \<open>A run in which every call outside the questions resolves.\<close>

definition goodRun :: "count_read \<Rightarrow> (int \<Rightarrow> question_env) \<Rightarrow> run_env" where
  "goodRun c qs =
     \<lparr>screenshotDirOk = True, login = goodLogin, startVisibleOk = True, countRead = c,
      startClickOk = True, startIdleOk = True, diagnosticDirOk = True, questions = qs,
      closeOk = True\<rparr>"

text \<open>Analyses of a choice question: without an answer (\<^verbatim>\<open>null\<close>), with the empty
  string as answer, with an answer that is none of the options, and with two answers.\<close>

definition nullAnswer :: "string \<Rightarrow> json" where
  "nullAnswer questionType =
     JObj [(''questionType'', JStr questionType),
           (''options'', JArr [JStr ''A'', JStr ''B'', JStr ''C'']),
           (''correctAnswer'', JNull)]"

definition emptyAnswer :: json where
  "emptyAnswer =
     JObj [(''questionType'', JStr ''multiple-choice-single''),
           (''options'', JArr [JStr ''A'', JStr ''B'', JStr ''C'']),
           (''correctAnswer'', JStr [])]"

definition strayAnswer :: json where
  "strayAnswer =
     JObj [(''questionType'', JStr ''multiple-choice-single''),
           (''options'', JArr [JStr ''A'', JStr ''B'', JStr ''C'']),
           (''correctAnswer'', JStr ''Z'')]"




text \<open>A quiz in which nothing fails.\<close>

definition allGood :: "int \<Rightarrow> question_env" where
  "allGood k = goodQuestion sampleAnalysis"

text \<open>The discovery of the question count fails: the text cannot be read, or it parses
  to \<^verbatim>\<open>NaN\<close> or to an integer that is not positive.\<close>

definition discoveryFails :: "count_read \<Rightarrow> bool" where
  "discoveryFails c =
     (case c of
        CountUnreadable \<Rightarrow> True
      | CountText None \<Rightarrow> True
      | CountText (Some n) \<Rightarrow> n \<le> 0)"

text \<open>Every call of \<^verbatim>\<open>runCanvasScraper\<close> around the discovery resolves, so that
  \<^verbatim>\<open>handleDiagnostic\<close> enters its loop.\<close>

definition quizStarted :: "run_env \<Rightarrow> bool" where
  "quizStarted env \<longleftrightarrow>
     screenshotDirOk env \<and> fst (loginToCanvas (login env)) = Inr () \<and> startVisibleOk env
     \<and> startClickOk env \<and> startIdleOk env \<and> diagnosticDirOk env"

section \<open>The combinators\<close>

lemma fst_return: "fst (return x) = Inr x"
  by (simp add: return_def)

lemma snd_return: "snd (return x) = []"
  by (simp add: return_def)

lemma fst_throw: "fst (throw e) = Inl e"
  by (simp add: throw_def)

lemma snd_throw: "snd (throw e) = []"
  by (simp add: throw_def)

lemma fst_call: "fst (call ev ok) = (if ok then Inr () else Inl (Rejected ev))"
  by (simp add: call_def)

lemma snd_call: "snd (call ev ok) = [ev]"
  by (simp add: call_def)

lemma fst_bind: "fst (bind m f) = (case fst m of Inl e \<Rightarrow> Inl e | Inr x \<Rightarrow> fst (f x))"
  by (simp add: bind_def split: prod.splits sum.splits)

lemma snd_bind: "snd (bind m f) = (case fst m of Inl e \<Rightarrow> snd m | Inr x \<Rightarrow> snd m @ snd (f x))"
  by (simp add: bind_def split: prod.splits sum.splits)

lemma fst_seq: "fst (seq m k) = (case fst m of Inl e \<Rightarrow> Inl e | Inr x \<Rightarrow> fst k)"
  by (simp add: seq_def fst_bind)

lemma snd_seq: "snd (seq m k) = (case fst m of Inl e \<Rightarrow> snd m | Inr x \<Rightarrow> snd m @ snd k)"
  by (simp add: seq_def snd_bind)

lemma fst_try_catch: "fst (try_catch m h) = (case fst m of Inl e \<Rightarrow> fst (h e) | Inr x \<Rightarrow> Inr x)"
  by (simp add: try_catch_def split: prod.splits sum.splits)

lemma snd_try_catch: "snd (try_catch m h) = (case fst m of Inl e \<Rightarrow> snd m @ snd (h e) | Inr x \<Rightarrow> snd m)"
  by (simp add: try_catch_def split: prod.splits sum.splits)

lemmas io_simps = fst_return snd_return fst_throw snd_throw fst_call snd_call fst_bind snd_bind
  fst_seq snd_seq fst_try_catch snd_try_catch

lemma clicks_append: "clicks (xs @ ys) = clicks xs @ clicks ys"
  by (simp add: clicks_def)

lemma clicks_Nil: "clicks [] = []"
  by (simp add: clicks_def)

lemma clicks_Cons: "clicks (e # xs) = clickOf e @ clicks xs"
  by (simp add: clicks_def)

lemma fst_clickOption: "fst (clickOption qe k t) = (if optionClickOk qe k \<or> optionErrShotOk qe k then Inr () else Inl (Rejected Screenshot))"
  by (simp add: clickOption_def io_simps)

lemma snd_clickOption: "snd (clickOption qe k t) = Click (mcOptionLabelSelector t) # (if optionClickOk qe k then [] else [Screenshot])"
  by (simp add: clickOption_def io_simps)

lemma handler_screenshot_failure:
  "\<not> optionClickOk qe k \<Longrightarrow> \<not> optionErrShotOk qe k \<Longrightarrow>
   fst (clickOption qe k t) = Inl (Rejected Screenshot)"
  by (simp add: fst_clickOption)


section \<open>Facts about one question\<close>

lemma clicks_clickEach_labels:
  "sel \<in> set (clicks (snd (clickEachAnswer qe k xs))) \<Longrightarrow> \<exists>t. sel = mcOptionLabelSelector t"
  by (induction qe k xs rule: clickEachAnswer.induct)
     (auto simp: io_simps snd_clickOption clicks_append clicks_Cons clicks_Nil split: sum.splits if_splits)

lemma clicks_selectAnswer_labels:
  "sel \<in> set (clicks (snd (selectAnswer qe a))) \<Longrightarrow> \<exists>t. sel = mcOptionLabelSelector t"
  by (auto simp: selectAnswer_def Let_def io_simps snd_clickOption clicks_Cons clicks_Nil
           dest: clicks_clickEach_labels split: if_splits json.splits)

lemma label_not_next: "mcOptionLabelSelector t \<noteq> NEXT_QUESTION_BUTTON_SELECTOR"
  by (simp add: mcOptionLabelSelector_def NEXT_QUESTION_BUTTON_SELECTOR_def)

lemma label_not_submit: "mcOptionLabelSelector t \<noteq> SUBMIT_QUIZ_BUTTON_SELECTOR"
  by (simp add: mcOptionLabelSelector_def SUBMIT_QUIZ_BUTTON_SELECTOR_def)

lemma next_not_submit: "NEXT_QUESTION_BUTTON_SELECTOR \<noteq> SUBMIT_QUIZ_BUTTON_SELECTOR"
  by (simp add: NEXT_QUESTION_BUTTON_SELECTOR_def SUBMIT_QUIZ_BUTTON_SELECTOR_def)

lemma stepEvent_clickEach: "list_all stepEvent (snd (clickEachAnswer qe k xs))"
  by (induction qe k xs rule: clickEachAnswer.induct)
     (auto simp: io_simps snd_clickOption stepEvent_def split: sum.splits)

lemma stepEvent_selectAnswer: "list_all stepEvent (snd (selectAnswer qe a))"
  by (auto simp: selectAnswer_def Let_def io_simps snd_clickOption stepEvent_clickEach stepEvent_def
           split: json.splits)

lemma terminal_Inr:
  "fst (terminalAction qe idx n) = Inr act \<Longrightarrow>
     act = (if idx < n then next_question_clicked else quiz_submitted)"
  by (auto simp: terminalAction_def io_simps split: if_splits sum.splits)

lemma clicks_terminal:
  "clicks (snd (terminalAction qe idx n)) =
     [if idx < n then NEXT_QUESTION_BUTTON_SELECTOR else SUBMIT_QUIZ_BUTTON_SELECTOR]"
  by (auto simp: terminalAction_def io_simps clicks_Cons clicks_Nil clicks_append split: if_splits sum.splits)

lemma stepEvent_terminal: "list_all stepEvent (snd (terminalAction qe idx n))"
  by (auto simp: terminalAction_def io_simps stepEvent_def split: if_splits sum.splits)

lemma fst_askLlm: "fst (askLlm qe idx) = Inr v \<longleftrightarrow> llm qe = LlmJson v"
  by (auto simp: askLlm_def split: llm_reply.splits)

lemma snd_askLlm: "snd (askLlm qe idx) = [LlmRequest]"
  by (auto simp: askLlm_def split: llm_reply.splits)

lemma process_Inr:
  "fst (processQuestion qe idx n) = Inr entry \<Longrightarrow>
     questionIndex entry = idx \<and>
     actionTaken entry = (if idx < n then next_question_clicked else quiz_submitted)"
  by (auto simp: processQuestion_def io_simps Let_def dest!: terminal_Inr split: if_splits sum.splits)

lemma process_trace:
  "\<exists>rest. snd (processQuestion qe idx n) = QuestionStart idx # rest \<and> list_all stepEvent rest"
  using stepEvent_selectAnswer stepEvent_terminal
  by (auto simp: processQuestion_def io_simps Let_def snd_askLlm stepEvent_def  split: if_splits sum.splits)

section \<open>Facts about the loop\<close>

lemma loop_done: "\<not> i < n \<Longrightarrow> questionLoop qs n i d = (Inr d, d, [])"
  by (subst questionLoop.simps) simp

lemma loop_throw:
  "i < n \<Longrightarrow> fst (processQuestion (qs (i + 1)) (i + 1) n) = Inl err \<Longrightarrow>
   questionLoop qs n i d = (Inl err, d, snd (processQuestion (qs (i + 1)) (i + 1) n))"
  by (subst questionLoop.simps, cases "processQuestion (qs (i + 1)) (i + 1) n")
     (auto split: prod.splits)

lemma loop_submit:
  "i < n \<Longrightarrow> fst (processQuestion (qs (i + 1)) (i + 1) n) = Inr entry \<Longrightarrow>
   actionTaken entry = quiz_submitted \<Longrightarrow>
   questionLoop qs n i d = (Inr (d @ [entry]), d @ [entry], snd (processQuestion (qs (i + 1)) (i + 1) n))"
  by (subst questionLoop.simps, cases "processQuestion (qs (i + 1)) (i + 1) n")
     (auto split: prod.splits)

lemma loop_continue:
  "i < n \<Longrightarrow> fst (processQuestion (qs (i + 1)) (i + 1) n) = Inr entry \<Longrightarrow>
   actionTaken entry \<noteq> quiz_submitted \<Longrightarrow>
   questionLoop qs n i d =
     (fst (questionLoop qs n (i + 1) (d @ [entry])),
      fst (snd (questionLoop qs n (i + 1) (d @ [entry]))),
      snd (processQuestion (qs (i + 1)) (i + 1) n) @ snd (snd (questionLoop qs n (i + 1) (d @ [entry]))))"
  by (subst questionLoop.simps, cases "processQuestion (qs (i + 1)) (i + 1) n")
     (auto split: prod.splits)

text \<open>An induction rule that follows the four ways one round of the loop can go.\<close>

lemma loop_induct [case_names finished thrown submitted continued]:
  assumes "\<And>i d. \<not> i < n \<Longrightarrow> P i d (Inr d, d, [])"
    and "\<And>i d err. i < n \<Longrightarrow> fst (processQuestion (qs (i + 1)) (i + 1) n) = Inl err \<Longrightarrow>
           P i d (Inl err, d, snd (processQuestion (qs (i + 1)) (i + 1) n))"
    and "\<And>i d entry. i + 1 = n \<Longrightarrow> fst (processQuestion (qs (i + 1)) (i + 1) n) = Inr entry \<Longrightarrow>
           questionIndex entry = i + 1 \<Longrightarrow> actionTaken entry = quiz_submitted \<Longrightarrow>
           P i d (Inr (d @ [entry]), d @ [entry], snd (processQuestion (qs (i + 1)) (i + 1) n))"
    and "\<And>i d entry res final tr. i + 1 < n \<Longrightarrow> fst (processQuestion (qs (i + 1)) (i + 1) n) = Inr entry \<Longrightarrow>
           questionIndex entry = i + 1 \<Longrightarrow> actionTaken entry = next_question_clicked \<Longrightarrow>
           questionLoop qs n (i + 1) (d @ [entry]) = (res, final, tr) \<Longrightarrow>
           P (i + 1) (d @ [entry]) (res, final, tr) \<Longrightarrow>
           P i d (res, final, snd (processQuestion (qs (i + 1)) (i + 1) n) @ tr)"
  shows "P i d (questionLoop qs n i d)"
  using assms
proof (induction qs n i d rule: questionLoop.induct)
  case (1 qs n i d)
  show ?case
  proof (cases "i < n")
    case False
    then show ?thesis using "1.prems"(1) by (simp add: loop_done)
  next
    case True
    show ?thesis
    proof (cases "fst (processQuestion (qs (i + 1)) (i + 1) n)")
      case (Inl err)
      then show ?thesis using True "1.prems"(2) by (simp add: loop_throw[of i n qs err d])
    next
      case (Inr entry)
      note pr = process_Inr[OF Inr]
      show ?thesis
      proof (cases "i + 1 < n")
        case False
        then have e: "i + 1 = n" using True by simp
        have s: "actionTaken entry = quiz_submitted" using pr False by simp
        have "P i d (Inr (d @ [entry]), d @ [entry], snd (processQuestion (qs (i + 1)) (i + 1) n))"
          using "1.prems"(3) e Inr pr s by blast
        then show ?thesis by (simp only: loop_submit[of i n qs entry d, OF True Inr s])
      next
        case t: True
        then have a: "actionTaken entry = next_question_clicked" using pr by simp
        then have ns: "actionTaken entry \<noteq> quiz_submitted" by simp
        obtain res final tr where r: "questionLoop qs n (i + 1) (d @ [entry]) = (res, final, tr)"
          by (cases "questionLoop qs n (i + 1) (d @ [entry])") auto
        have pq: "processQuestion (qs (i + 1)) (i + 1) n = (Inr entry, snd (processQuestion (qs (i + 1)) (i + 1) n))"
          using Inr by (metis prod.collapse)
        have "P (i + 1) (d @ [entry]) (questionLoop qs n (i + 1) (d @ [entry]))"
          by (rule "1.IH"[OF True pq[symmetric] refl ns "1.prems"])
        then have "P (i + 1) (d @ [entry]) (res, final, tr)" by (simp only: r)
        then have "P i d (res, final, snd (processQuestion (qs (i + 1)) (i + 1) n) @ tr)"
          using "1.prems"(4) t Inr pr a r by blast
        then show ?thesis by (simp only: loop_continue[of i n qs entry d, OF True Inr ns] r fst_conv snd_conv)
      qed
    qed
  qed
qed

lemma questionStarts_Nil: "questionStarts [] = []"
  by (simp add: questionStarts_def)

lemma questionStarts_append: "questionStarts (xs @ ys) = questionStarts xs @ questionStarts ys"
  by (simp add: questionStarts_def)

lemma questionStarts_stepEvents: "list_all stepEvent tr \<Longrightarrow> questionStarts tr = []"
  by (induction tr) (auto simp: questionStarts_def stepEvent_def split: event.splits)

lemma process_starts: "questionStarts (snd (processQuestion qe idx n)) = [idx]"
proof -
  obtain rest where "snd (processQuestion qe idx n) = QuestionStart idx # rest" "list_all stepEvent rest"
    using process_trace by blast
  then show ?thesis using questionStarts_stepEvents[of rest] by (simp add: questionStarts_def)
qed

lemma stepEvents_no_close: "list_all stepEvent tr \<Longrightarrow> count_list tr BrowserClose = 0"
  by (induction tr) (auto simp: stepEvent_def split: event.splits)

lemma process_no_close: "count_list (snd (processQuestion qe idx n)) BrowserClose = 0"
proof -
  obtain rest where "snd (processQuestion qe idx n) = QuestionStart idx # rest" "list_all stepEvent rest"
    using process_trace by blast
  then show ?thesis using stepEvents_no_close[of rest] by simp
qed

lemma loop_no_close: "count_list (snd (snd (questionLoop qs n i d))) BrowserClose = 0"
  by (rule loop_induct[where P = "\<lambda>i d r. count_list (snd (snd r)) BrowserClose = 0"])
     (simp_all add: process_no_close)

lemma loop_indices:
  "int (length d) = i \<Longrightarrow> map questionIndex d = map (\<lambda>k. int k + 1) [0..<length d] \<Longrightarrow>
   map questionIndex (fst (snd (questionLoop qs n i d)))
     = map (\<lambda>k. int k + 1) [0..<length (fst (snd (questionLoop qs n i d)))]
   \<and> int (length (fst (snd (questionLoop qs n i d)))) \<le> max i n"
  by (rule loop_induct[where P = "\<lambda>i d r. int (length d) = i \<longrightarrow>
          map questionIndex d = map (\<lambda>k. int k + 1) [0..<length d] \<longrightarrow>
          map questionIndex (fst (snd r)) = map (\<lambda>k. int k + 1) [0..<length (fst (snd r))]
          \<and> int (length (fst (snd r))) \<le> max i n", rule_format])
     auto

lemma loop_actions:
  "0 \<le> i \<Longrightarrow> list_all (expectedAction n) d \<Longrightarrow>
   list_all (expectedAction n) (fst (snd (questionLoop qs n i d)))"
  by (rule loop_induct[where P = "\<lambda>i d r. 0 \<le> i \<longrightarrow> list_all (expectedAction n) d \<longrightarrow>
          list_all (expectedAction n) (fst (snd r))", rule_format])
     (auto simp: expectedAction_def)

lemma loop_result: "fst (questionLoop qs n i d) = Inr r \<Longrightarrow> r = fst (snd (questionLoop qs n i d))"
  by (rule loop_induct[where P = "\<lambda>i d res. fst res = Inr r \<longrightarrow> r = fst (snd res)", rule_format])
     auto

lemma loop_submitted:
  "list_all (\<lambda>e. actionTaken e \<noteq> quiz_submitted) d \<Longrightarrow>
   e \<in> set (fst (snd (questionLoop qs n i d))) \<Longrightarrow> actionTaken e = quiz_submitted \<Longrightarrow>
   fst (questionLoop qs n i d) = Inr (fst (snd (questionLoop qs n i d))) \<and>
   last (fst (snd (questionLoop qs n i d))) = e \<and> i < questionIndex e \<and>
   (\<forall>j \<in> set (questionStarts (snd (snd (questionLoop qs n i d)))). j \<le> questionIndex e)"
  by (rule loop_induct[where P = "\<lambda>i d r. list_all (\<lambda>e. actionTaken e \<noteq> quiz_submitted) d \<longrightarrow>
       e \<in> set (fst (snd r)) \<longrightarrow> actionTaken e = quiz_submitted \<longrightarrow>
       fst r = Inr (fst (snd r)) \<and> last (fst (snd r)) = e \<and> i < questionIndex e \<and>
       (\<forall>j \<in> set (questionStarts (snd (snd r))). j \<le> questionIndex e)", rule_format])
     (auto simp: list_all_iff process_starts questionStarts_append questionStarts_Nil)

lemma loop_abort:
  "int (length d) = i \<Longrightarrow> k \<in> set (questionStarts (snd (snd (questionLoop qs n i d)))) \<Longrightarrow>
   fst (processQuestion (qs k) k n) = Inl err \<Longrightarrow>
   fst (questionLoop qs n i d) = Inl err \<and> int (length (fst (snd (questionLoop qs n i d)))) = k - 1"
  by (rule loop_induct[where P = "\<lambda>i d r. int (length d) = i \<longrightarrow> k \<in> set (questionStarts (snd (snd r))) \<longrightarrow>
       fst (processQuestion (qs k) k n) = Inl err \<longrightarrow>
       fst r = Inl err \<and> int (length (fst (snd r))) = k - 1", rule_format])
     (auto simp: process_starts questionStarts_append questionStarts_Nil)

lemma fst_handleDiagnostic:
  "fst (handleDiagnostic dirOk qs n) = (if dirOk then fst (questionLoop qs n 0 []) else Inl (Rejected Mkdir))"
  by (auto simp: handleDiagnostic_def io_simps split: prod.splits sum.splits)

lemma snd_handleDiagnostic:
  "snd (handleDiagnostic dirOk qs n) = Mkdir # (if dirOk then snd (snd (questionLoop qs n 0 [])) else [])"
  by (auto simp: handleDiagnostic_def io_simps split: prod.splits sum.splits)

lemma questionStarts_Cons: "questionStarts (ev # tr) = startOf ev @ questionStarts tr"
  by (simp add: questionStarts_def)

lemma run_result: "fst (runCanvasScraper env) = Inr () \<or> fst (runCanvasScraper env) = Inl (Rejected BrowserClose)"
  by (auto simp: runCanvasScraper_def io_simps split: prod.splits sum.splits)

lemma fallback_keeps_answer:
  "field a ''correctAnswer'' \<noteq> JNull \<Longrightarrow> applyFallback a = a"
  by (simp add: applyFallback_def)

lemma field_object: "field a k = JNull \<Longrightarrow> \<exists>kvs. a = JObj kvs"
  by (cases a) simp_all

lemma clicks_processQuestion_reached:
  "idleOk qe \<Longrightarrow> shotOk qe \<Longrightarrow> writeOk qe \<Longrightarrow> llm qe = LlmJson a \<Longrightarrow> a \<noteq> JNull \<Longrightarrow> a \<noteq> JUndefined \<Longrightarrow>
   fst (selectAnswer qe (applyFallback a)) = Inr () \<Longrightarrow>
   clicks (snd (processQuestion qe idx n)) =
     clicks (snd (selectAnswer qe (applyFallback a)))
       @ [if idx < n then NEXT_QUESTION_BUTTON_SELECTOR else SUBMIT_QUIZ_BUTTON_SELECTOR]"
  by (simp add: processQuestion_def io_simps askLlm_def Let_def clicks_append clicks_Cons clicks_Nil
        clicks_terminal split: sum.splits)

section \<open>Facts about the run\<close>

lemma login_Inr: "fst (loginToCanvas le) = Inr u \<Longrightarrow> sessionOk le \<and> connectOk le"
  by (auto simp: loginToCanvas_def loginSteps_def io_simps split: if_splits sum.splits)

lemma login_close_count:
  "count_list (snd (loginToCanvas le)) BrowserClose =
     (if sessionOk le \<and> connectOk le \<and> fst (loginToCanvas le) = Inl LoginFailed then 1 else 0)"
  by (auto simp: loginToCanvas_def loginSteps_def io_simps split: if_splits sum.splits)

lemma login_result: "fst (loginToCanvas le) = Inr () \<or> fst (loginToCanvas le) = Inl LoginFailed"
  by (auto simp: loginToCanvas_def loginSteps_def io_simps split: if_splits sum.splits)

lemma login_no_starts: "questionStarts (snd (loginToCanvas le)) = []"
  by (auto simp: loginToCanvas_def loginSteps_def io_simps questionStarts_Cons questionStarts_Nil
        questionStarts_append split: if_splits sum.splits)

lemma fst_scrape: "fst (scrapeMaxQuestions c) =
   Inr (case c of CountUnreadable \<Rightarrow> 1 | CountText parsed \<Rightarrow> checkedCount parsed)"
  by (simp add: scrapeMaxQuestions_def readCount_def io_simps split: count_read.splits)

lemma snd_scrape: "snd (scrapeMaxQuestions c) = [TextContent QUESTIONS_COUNT_SELECTOR]"
  by (simp add: scrapeMaxQuestions_def readCount_def io_simps split: count_read.splits)

lemma handle_no_close: "count_list (snd (handleDiagnostic dirOk qs n)) BrowserClose = 0"
  by (simp add: snd_handleDiagnostic loop_no_close)

lemma afterLogin_no_close: "count_list (snd (afterLogin env)) BrowserClose = 0"
  by (simp add: afterLogin_def io_simps fst_scrape snd_scrape handle_no_close split: sum.splits)

lemma snd_runCanvasScraper:
  "snd (runCanvasScraper env) =
     (if \<not> screenshotDirOk env then [Mkdir]
      else (case fst (loginToCanvas (login env)) of
              Inl err \<Rightarrow> Mkdir # snd (loginToCanvas (login env))
            | Inr u \<Rightarrow> Mkdir # snd (loginToCanvas (login env)) @ snd (afterLogin env) @ [BrowserClose]))"
proof -
  obtain r tr where l: "loginToCanvas (login env) = (r, tr)" by (cases "loginToCanvas (login env)")
  obtain r' tr' where a: "afterLogin env = (r', tr')" by (cases "afterLogin env")
  show ?thesis
    by (cases r; cases r')
       (simp_all add: runCanvasScraper_def scraperSteps_def l a seq_def bind_def call_def
          try_catch_def return_def)
qed

lemma loop_one: "questionStarts (snd (snd (questionLoop qs 1 0 []))) = [1]"
proof (cases "fst (processQuestion (qs (0 + 1)) (0 + 1) 1)")
  case (Inl err)
  show ?thesis using loop_throw[of 0 1 qs err "[]", OF _ Inl] process_starts[of "qs 1" 1 1] by simp
next
  case (Inr entry)
  have "actionTaken entry = quiz_submitted" using process_Inr[OF Inr] by simp
  then show ?thesis using loop_submit[of 0 1 qs entry "[]", OF _ Inr] process_starts[of "qs 1" 1 1] by simp
qed

lemma total_positive: "fst (scrapeMaxQuestions c) = Inr n \<Longrightarrow> 1 \<le> n"
  by (auto simp: fst_scrape checkedCount_def split: count_read.splits option.splits)

section \<open>The claims\<close>

text \<open>
  C1 (as the code has it). When the processing of question \<open>k\<close> was started and throws,
  \<^verbatim>\<open>handleDiagnostic\<close> throws that same error: its caller receives the error and not the
  \<open>k - 1\<close> entries that the array holds at that moment. \<^verbatim>\<open>handleDiagnostic\<close> hands the
  array to its caller only when it returns, and \<^verbatim>\<open>runCanvasScraper\<close> has no value to
  return on any path: it returns nothing, or throws the rejection of the final close.
\<close>

theorem fatal_failure_rethrown_without_log:
  assumes "k \<in> set (questionStarts (snd (handleDiagnostic dirOk qs n)))"
      and "fst (processQuestion (qs k) k n) = Inl err"
  shows "fst (handleDiagnostic dirOk qs n) = Inl err
       \<and> int (length (diagnosticDataAtExit dirOk qs n)) = k - 1
       \<and> (case fst (handleDiagnostic dirOk' qs' n') of
            Inr returned \<Rightarrow> returned = diagnosticDataAtExit dirOk' qs' n'
          | Inl e \<Rightarrow> True)
       \<and> (fst (runCanvasScraper env) = Inr ()
            \<or> fst (runCanvasScraper env) = Inl (Rejected BrowserClose))"
proof -
  have abort: "fst (handleDiagnostic dirOk qs n) = Inl err
       \<and> int (length (diagnosticDataAtExit dirOk qs n)) = k - 1"
    using assms loop_abort[of "[]" 0 k qs n err]
    by (simp add: fst_handleDiagnostic snd_handleDiagnostic diagnosticDataAtExit_def
          questionStarts_Cons questionStarts_Nil split: if_splits)
  have returned: "case fst (handleDiagnostic dirOk' qs' n') of
            Inr returned \<Rightarrow> returned = diagnosticDataAtExit dirOk' qs' n'
          | Inl e \<Rightarrow> True"
    using loop_result[of qs' n' 0 "[]"]
    by (simp add: fst_handleDiagnostic diagnosticDataAtExit_def split: sum.splits)
  show ?thesis using abort returned run_result[of env] by simp
qed

theorem fatal_failure_rethrown_without_log_witness:
  "2 \<in> set (questionStarts (snd (handleDiagnostic True failingSecond 3)))
   \<and> fst (processQuestion (failingSecond 2) 2 3) = Inl (NextClickFailed 2)
   \<and> fst (handleDiagnostic True failingSecond 3) = Inl (NextClickFailed 2)
   \<and> int (length (diagnosticDataAtExit True failingSecond 3)) = 2 - 1"
proof -
  have started: "2 \<in> set (questionStarts (snd (handleDiagnostic True failingSecond 3)))"
    by code_simp
  have thrown: "fst (processQuestion (failingSecond 2) 2 3) = Inl (NextClickFailed 2)"
    by code_simp
  show ?thesis
    using fatal_failure_rethrown_without_log[OF started thrown] started thrown by simp
qed

text \<open>
  C1 as stated fails: in a quiz of three questions whose second Next click fails, the
  array holds the entry of question 1 when the run is aborted, yet the caller of
  \<^verbatim>\<open>handleDiagnostic\<close> receives the error, and \<^verbatim>\<open>runCanvasScraper\<close> returns nothing.
\<close>

theorem partial_log_not_returned:
  "diagnosticDataAtExit True failingSecond 3 =
     [\<lparr>questionIndex = 1, llmAnalysis = sampleAnalysis, actionTaken = next_question_clicked\<rparr>]
   \<and> fst (handleDiagnostic True failingSecond 3) = Inl (NextClickFailed 2)
   \<and> fst (runCanvasScraper (goodRun (CountText (Some 3)) failingSecond)) = Inr ()"
  by code_simp

text \<open>
  C2 (as the code has it). For an analysis of a choice type (\<^verbatim>\<open>multiple-choice-single\<close>,
  \<^verbatim>\<open>multiple-choice\<close> or \<^verbatim>\<open>multiple-choice-multiple\<close>) whose \<^verbatim>\<open>correctAnswer\<close> is
  \<^verbatim>\<open>null\<close> and whose \<^verbatim>\<open>options\<close> start with a non-empty string, the fallback stores
  that first option as the answer, as a string for the single-choice types and as a
  one-element array for the multiple-selection type, and the selection clicks exactly the
  label of that option.
\<close>

theorem fallback_on_null_answer:
  assumes "isChoiceType (field a ''questionType'')"
      and "field a ''correctAnswer'' = JNull"
      and "field a ''options'' = JArr (JStr firstOption # others)"
      and "firstOption \<noteq> []"
  shows "field (applyFallback a) ''correctAnswer'' =
           (if field a ''questionType'' = JStr ''multiple-choice-multiple''
            then JArr [JStr firstOption] else JStr firstOption)
       \<and> clicks (snd (selectAnswer qe (applyFallback a))) = [mcOptionLabelSelector firstOption]"
proof -
  obtain kvs where a: "a = JObj kvs" using assms(2) field_object by blast
  have answer: "field (applyFallback a) ''correctAnswer'' =
           (if field a ''questionType'' = JStr ''multiple-choice-multiple''
            then JArr [JStr firstOption] else JStr firstOption)"
    using assms by (simp add: a applyFallback_def update_conv')
  have type: "field (applyFallback a) ''questionType'' = field a ''questionType''"
    using assms by (simp add: a applyFallback_def update_conv')
  show ?thesis
  proof (cases "field a ''questionType'' = JStr ''multiple-choice-multiple''")
    case True
    then show ?thesis using answer type
      by (simp add: selectAnswer_def Let_def isChoiceType_def isArray_def elements_def io_simps
            snd_clickOption clicks_Cons clicks_Nil clicks_append split: sum.splits)
  next
    case False
    then show ?thesis using answer type assms(1,4)
      by (simp add: selectAnswer_def Let_def isArray_def snd_clickOption clicks_Cons clicks_Nil)
  qed
qed

theorem fallback_on_null_answer_witness:
  "clicks (snd (selectAnswer (goodQuestion (nullAnswer ''multiple-choice-single''))
                  (applyFallback (nullAnswer ''multiple-choice-single''))))
     = [mcOptionLabelSelector ''A'']
   \<and> field (applyFallback (nullAnswer ''multiple-choice-single'')) ''correctAnswer'' = JStr ''A''
   \<and> field (applyFallback (nullAnswer ''multiple-choice-multiple'')) ''correctAnswer'' = JArr [JStr ''A'']"
proof -
  have t: "isChoiceType (field (nullAnswer q) ''questionType'')"
    if "q = ''multiple-choice-single'' \<or> q = ''multiple-choice-multiple''" for q
    using that by (auto simp: nullAnswer_def isChoiceType_def)
  have n: "field (nullAnswer q) ''correctAnswer'' = JNull" for q
    by (simp add: nullAnswer_def)
  have opts: "field (nullAnswer q) ''options'' = JArr (JStr ''A'' # [JStr ''B'', JStr ''C''])" for q
    by (simp add: nullAnswer_def)
  have ne: "''A'' \<noteq> []" by simp
  have s: "field (nullAnswer ''multiple-choice-single'') ''questionType'' \<noteq> JStr ''multiple-choice-multiple''"
    by (simp add: nullAnswer_def)
  have m: "field (nullAnswer ''multiple-choice-multiple'') ''questionType'' = JStr ''multiple-choice-multiple''"
    by (simp add: nullAnswer_def)
  show ?thesis
    using fallback_on_null_answer[OF t n opts ne, of "''multiple-choice-single''"
              "goodQuestion (nullAnswer ''multiple-choice-single'')"]
          fallback_on_null_answer[OF t n opts ne, of "''multiple-choice-multiple''"
              "goodQuestion (nullAnswer ''multiple-choice-multiple'')"] s m
    by simp
qed

text \<open>
  C2 as stated fails for an empty answer: with \<^verbatim>\<open>correctAnswer\<close> the empty string and
  the options A, B, C on a single-choice question, the fallback changes nothing and the
  selection makes no call at all, so nothing is clicked.
\<close>

theorem empty_answer_gets_no_fallback:
  "field emptyAnswer ''questionType'' = JStr ''multiple-choice-single''
   \<and> field emptyAnswer ''correctAnswer'' = JStr []
   \<and> field emptyAnswer ''options'' = JArr [JStr ''A'', JStr ''B'', JStr ''C'']
   \<and> applyFallback emptyAnswer = emptyAnswer
   \<and> snd (selectAnswer (goodQuestion emptyAnswer) (applyFallback emptyAnswer)) = []"
  by code_simp

text \<open>
  C3. When the processing of question \<open>i\<close> of \<open>n\<close> succeeds (\<open>i \<le> n\<close>), the Next button
  is clicked exactly when \<open>i < n\<close> and the Submit Quiz button exactly when \<open>i = n\<close>, and
  the entry records the matching action. In every run over \<open>n\<close> questions each entry of
  the log has an index between 1 and \<open>n\<close> and carries \<^verbatim>\<open>next_question_clicked\<close> when
  its index is below \<open>n\<close> and \<^verbatim>\<open>quiz_submitted\<close> when it is \<open>n\<close>.
\<close>

theorem terminal_action_by_index:
  assumes "fst (processQuestion qe i n) = Inr entry" and "i \<le> n"
  shows "(NEXT_QUESTION_BUTTON_SELECTOR \<in> set (clicks (snd (processQuestion qe i n)))) = (i < n)
       \<and> (SUBMIT_QUIZ_BUTTON_SELECTOR \<in> set (clicks (snd (processQuestion qe i n)))) = (i = n)
       \<and> actionTaken entry = (if i < n then next_question_clicked else quiz_submitted)
       \<and> list_all (expectedAction n) (diagnosticDataAtExit dirOk qs n)"
proof -
  obtain a where a: "llm qe = LlmJson a" "idleOk qe" "shotOk qe" "writeOk qe" "a \<noteq> JNull" "a \<noteq> JUndefined"
     "fst (selectAnswer qe (applyFallback a)) = Inr ()"
    using assms(1)
    by (auto simp: processQuestion_def io_simps askLlm_def Let_def split: sum.splits if_splits llm_reply.splits)
  have c: "clicks (snd (processQuestion qe i n)) =
     clicks (snd (selectAnswer qe (applyFallback a)))
       @ [if i < n then NEXT_QUESTION_BUTTON_SELECTOR else SUBMIT_QUIZ_BUTTON_SELECTOR]"
    using a by (simp add: clicks_processQuestion_reached)
  have nn: "NEXT_QUESTION_BUTTON_SELECTOR \<notin> set (clicks (snd (selectAnswer qe (applyFallback a))))"
    using clicks_selectAnswer_labels label_not_next by metis
  have ns: "SUBMIT_QUIZ_BUTTON_SELECTOR \<notin> set (clicks (snd (selectAnswer qe (applyFallback a))))"
    using clicks_selectAnswer_labels label_not_submit by metis
  have run: "list_all (expectedAction n) (diagnosticDataAtExit dirOk qs n)"
    using loop_actions[of 0 n "[]" qs] by (simp add: diagnosticDataAtExit_def)
  show ?thesis using c nn ns next_not_submit process_Inr[OF assms(1)] assms(2) run by auto
qed

text \<open>With three questions, question 2 clicks Next and question 3 clicks Submit Quiz.\<close>

theorem terminal_action_by_index_witness:
  "fst (processQuestion (allGood 2) 2 3) =
     Inr \<lparr>questionIndex = 2, llmAnalysis = sampleAnalysis, actionTaken = next_question_clicked\<rparr>
   \<and> NEXT_QUESTION_BUTTON_SELECTOR \<in> set (clicks (snd (processQuestion (allGood 2) 2 3)))
   \<and> SUBMIT_QUIZ_BUTTON_SELECTOR \<notin> set (clicks (snd (processQuestion (allGood 2) 2 3)))
   \<and> fst (processQuestion (allGood 3) 3 3) =
     Inr \<lparr>questionIndex = 3, llmAnalysis = sampleAnalysis, actionTaken = quiz_submitted\<rparr>
   \<and> SUBMIT_QUIZ_BUTTON_SELECTOR \<in> set (clicks (snd (processQuestion (allGood 3) 3 3)))
   \<and> NEXT_QUESTION_BUTTON_SELECTOR \<notin> set (clicks (snd (processQuestion (allGood 3) 3 3)))"
proof -
  have second: "fst (processQuestion (allGood 2) 2 3) =
     Inr \<lparr>questionIndex = 2, llmAnalysis = sampleAnalysis, actionTaken = next_question_clicked\<rparr>"
    by code_simp
  have third: "fst (processQuestion (allGood 3) 3 3) =
     Inr \<lparr>questionIndex = 3, llmAnalysis = sampleAnalysis, actionTaken = quiz_submitted\<rparr>"
    by code_simp
  have le2: "(2::int) \<le> 3" and le3: "(3::int) \<le> 3" by simp_all
  show ?thesis
    using terminal_action_by_index[OF second le2, where dirOk = True and qs = allGood]
          terminal_action_by_index[OF third le3, where dirOk = True and qs = allGood]
          second third
    by simp
qed




text \<open>
  C5. For every total \<open>n \<ge> 0\<close> (a run resolves its total to at least 1, see
  \<open>total_positive\<close>) and at every exit of \<^verbatim>\<open>handleDiagnostic\<close>, the array
  \<^verbatim>\<open>diagnosticData\<close> has at most \<open>n\<close> entries and the entry at position \<open>i\<close> (from 0)
  has index \<open>i + 1\<close>.
\<close>

theorem log_indices_gapless:
  assumes "0 \<le> n"
  shows "int (length (diagnosticDataAtExit dirOk qs n)) \<le> n
       \<and> (\<forall>i < length (diagnosticDataAtExit dirOk qs n).
             questionIndex (diagnosticDataAtExit dirOk qs n ! i) = int i + 1)"
proof (cases dirOk)
  case False
  then show ?thesis using assms by (simp add: diagnosticDataAtExit_def)
next
  case True
  let ?log = "fst (snd (questionLoop qs n 0 []))"
  have inv: "map questionIndex ?log = map (\<lambda>k. int k + 1) [0..<length ?log] \<and> int (length ?log) \<le> max 0 n"
    using loop_indices[of "[]" 0 qs n] by simp
  have "\<forall>i < length ?log. questionIndex (?log ! i) = int i + 1"
  proof (intro allI impI)
    fix i assume i: "i < length ?log"
    have "questionIndex (?log ! i) = map questionIndex ?log ! i" using i by simp
    also have "\<dots> = map (\<lambda>k. int k + 1) [0..<length ?log] ! i" using inv by simp
    also have "\<dots> = int i + 1" using i by simp
    finally show "questionIndex (?log ! i) = int i + 1" .
  qed
  then show ?thesis using inv assms True by (simp add: diagnosticDataAtExit_def)
qed

theorem log_indices_gapless_witness:
  "(0::int) \<le> 3
   \<and> int (length (diagnosticDataAtExit True allGood 3)) \<le> 3
   \<and> map questionIndex (diagnosticDataAtExit True allGood 3) = [1, 2, 3]"
proof -
  have total: "(0::int) \<le> 3" by simp
  have indices: "map questionIndex (diagnosticDataAtExit True allGood 3) = [1, 2, 3]"
    by code_simp
  show ?thesis
    using log_indices_gapless[OF total, of True allGood] indices by simp
qed

text \<open>
  C6. When the discovery of the question count fails (the text cannot be read, or it
  parses to \<^verbatim>\<open>NaN\<close> or to a non-positive integer), the discovery does not throw and
  returns the total 1, the loop run with that total starts the processing of exactly one
  question, the one of index 1, and the run goes on: once the landing page was reached,
  the start button is clicked, and when the calls around the discovery resolve the whole
  run starts exactly one question.
\<close>

theorem discovery_failure_defaults_to_one:
  assumes "discoveryFails (countRead env)"
  shows "fst (scrapeMaxQuestions (countRead env)) = Inr 1
       \<and> questionStarts (snd (snd (questionLoop (questions env) 1 0 []))) = [1]
       \<and> (screenshotDirOk env \<and> fst (loginToCanvas (login env)) = Inr () \<and> startVisibleOk env \<longrightarrow>
            Click START_QUIZ_SELECTOR \<in> set (snd (runCanvasScraper env)))
       \<and> (quizStarted env \<longrightarrow> questionStarts (snd (runCanvasScraper env)) = [1])"
proof -
  have one: "fst (scrapeMaxQuestions (countRead env)) = Inr 1"
    using assms by (auto simp: fst_scrape discoveryFails_def checkedCount_def split: count_read.splits option.splits)
  have after: "snd (afterLogin env) =
      WaitForSelector START_QUIZ_SELECTOR #
        (if startVisibleOk env
         then TextContent QUESTIONS_COUNT_SELECTOR # Click START_QUIZ_SELECTOR #
                (if startClickOk env
                 then WaitForLoadState #
                        (if startIdleOk env
                         then snd (handleDiagnostic (diagnosticDirOk env) (questions env) 1)
                         else [])
                 else [])
         else [])"
    using one by (simp add: afterLogin_def io_simps snd_scrape split: sum.splits)
  have click: "screenshotDirOk env \<and> fst (loginToCanvas (login env)) = Inr () \<and> startVisibleOk env \<Longrightarrow>
            Click START_QUIZ_SELECTOR \<in> set (snd (runCanvasScraper env))"
    by (simp add: snd_runCanvasScraper after)
  have starts: "quizStarted env \<Longrightarrow> questionStarts (snd (runCanvasScraper env)) = [1]"
    using loop_one[of "questions env"] login_no_starts[of "login env"]
    by (simp add: quizStarted_def snd_runCanvasScraper after snd_handleDiagnostic
          questionStarts_Cons questionStarts_Nil questionStarts_append)
  show ?thesis using one loop_one click starts by blast
qed

theorem discovery_failure_defaults_to_one_witness:
  "discoveryFails (countRead (goodRun (CountText None) allGood))
   \<and> quizStarted (goodRun (CountText None) allGood)
   \<and> fst (scrapeMaxQuestions (countRead (goodRun (CountText None) allGood))) = Inr 1
   \<and> Click START_QUIZ_SELECTOR \<in> set (snd (runCanvasScraper (goodRun (CountText None) allGood)))
   \<and> questionStarts (snd (runCanvasScraper (goodRun (CountText None) allGood))) = [1]"
proof -
  have fails: "discoveryFails (countRead (goodRun (CountText None) allGood))"
    by (simp add: goodRun_def discoveryFails_def)
  have started: "quizStarted (goodRun (CountText None) allGood)"
    by code_simp
  show ?thesis
    using discovery_failure_defaults_to_one[OF fails] fails started
    by (simp add: quizStarted_def)
qed

text \<open>
  C7. In every run the browser is closed exactly once when there is a browser, that is
  when the screenshot directory was made, the session was created and
  \<^verbatim>\<open>connectOverCDP\<close> resolved, and never otherwise: whichever later call fails, in
  \<^verbatim>\<open>loginToCanvas\<close>, in the discovery, in the questions or in the close itself, the
  trace of the run holds one \<open>BrowserClose\<close>.
\<close>

theorem browser_closed_exactly_once:
  "count_list (snd (runCanvasScraper env)) BrowserClose =
     (if screenshotDirOk env \<and> sessionOk (login env) \<and> connectOk (login env) then 1 else 0)"
proof (cases "fst (loginToCanvas (login env))")
  case (Inl err)
  then have "err = LoginFailed" using login_result[of "login env"] by simp
  then show ?thesis using Inl login_close_count[of "login env"]
    by (simp add: snd_runCanvasScraper)
next
  case (Inr u)
  then show ?thesis using login_Inr[OF Inr] login_close_count[of "login env"] afterLogin_no_close[of env]
    by (simp add: snd_runCanvasScraper)
qed

text \<open>
  C8. When the array holds an entry whose action is \<^verbatim>\<open>quiz_submitted\<close>,
  \<^verbatim>\<open>handleDiagnostic\<close> has returned the array with that entry as its last one, and no
  question of a later index was started.
\<close>

theorem loop_stops_at_submission:
  assumes "e \<in> set (diagnosticDataAtExit dirOk qs n)" and "actionTaken e = quiz_submitted"
  shows "fst (handleDiagnostic dirOk qs n) = Inr (diagnosticDataAtExit dirOk qs n)
       \<and> last (diagnosticDataAtExit dirOk qs n) = e
       \<and> (\<forall>j \<in> set (questionStarts (snd (handleDiagnostic dirOk qs n))). j \<le> questionIndex e)"
proof -
  have d: dirOk using assms(1) by (auto simp: diagnosticDataAtExit_def split: if_splits)
  have e: "e \<in> set (fst (snd (questionLoop qs n 0 [])))" using assms(1) d by (simp add: diagnosticDataAtExit_def)
  show ?thesis
    using loop_submitted[of "[]" e qs n 0, OF _ e assms(2)] d
    by (simp add: fst_handleDiagnostic snd_handleDiagnostic diagnosticDataAtExit_def questionStarts_Cons)
qed

theorem loop_stops_at_submission_witness:
  "\<lparr>questionIndex = 3, llmAnalysis = sampleAnalysis, actionTaken = quiz_submitted\<rparr>
     \<in> set (diagnosticDataAtExit True allGood 3)
   \<and> last (diagnosticDataAtExit True allGood 3) =
       \<lparr>questionIndex = 3, llmAnalysis = sampleAnalysis, actionTaken = quiz_submitted\<rparr>
   \<and> questionStarts (snd (handleDiagnostic True allGood 3)) = [1, 2, 3]"
proof -
  let ?e = "\<lparr>questionIndex = 3, llmAnalysis = sampleAnalysis, actionTaken = quiz_submitted\<rparr>"
  have recorded: "?e \<in> set (diagnosticDataAtExit True allGood 3)"
    by code_simp
  have submitted: "actionTaken ?e = quiz_submitted" by simp
  have starts: "questionStarts (snd (handleDiagnostic True allGood 3)) = [1, 2, 3]"
    by code_simp
  show ?thesis
    using loop_stops_at_submission[OF recorded submitted] recorded starts by simp
qed

text \<open>
  C9. Every entry of the array \<^verbatim>\<open>diagnosticData\<close>, at every exit of
  \<^verbatim>\<open>handleDiagnostic\<close>, has the action \<^verbatim>\<open>next_question_clicked\<close> or
  \<^verbatim>\<open>quiz_submitted\<close>: a failed Next or Submit Quiz click throws before the entry is
  pushed.
\<close>

theorem log_holds_only_completed_actions:
  "list_all (\<lambda>e. actionTaken e = next_question_clicked \<or> actionTaken e = quiz_submitted)
     (diagnosticDataAtExit dirOk qs n)"
proof -
  have "list_all (expectedAction n) (diagnosticDataAtExit dirOk qs n)"
    using loop_actions[of 0 n "[]" qs] by (simp add: diagnosticDataAtExit_def)
  then show ?thesis by (auto simp: list_all_iff expectedAction_def)
qed

text \<open>
  C10. For an analysis of type \<^verbatim>\<open>multiple-choice-single\<close> or \<^verbatim>\<open>multiple-choice\<close> whose
  \<^verbatim>\<open>correctAnswer\<close> is a non-empty string, whatever its \<^verbatim>\<open>options\<close> are, the first call
  of the selection is the click on the label selector built from that string (followed
  only by the diagnostic screenshot when the click fails).
\<close>

theorem single_choice_click_ignores_options:
  assumes "field a ''questionType'' = JStr ''multiple-choice-single''
           \<or> field a ''questionType'' = JStr ''multiple-choice''"
      and "field a ''correctAnswer'' = JStr answerText"
      and "answerText \<noteq> []"
  shows "snd (selectAnswer qe (applyFallback a)) =
           Click (mcOptionLabelSelector answerText) # (if optionClickOk qe 0 then [] else [Screenshot])"
  using assms
  by (auto simp: fallback_keeps_answer selectAnswer_def Let_def isChoiceType_def isArray_def
        snd_clickOption)

theorem single_choice_click_ignores_options_witness:
  "JStr ''Z'' \<notin> set (elements (field strayAnswer ''options''))
   \<and> snd (selectAnswer (goodQuestion strayAnswer) (applyFallback strayAnswer)) =
       [Click (mcOptionLabelSelector ''Z'')]"
proof -
  have t: "field strayAnswer ''questionType'' = JStr ''multiple-choice-single''
           \<or> field strayAnswer ''questionType'' = JStr ''multiple-choice''"
    by (simp add: strayAnswer_def)
  have c: "field strayAnswer ''correctAnswer'' = JStr ''Z''"
    by (simp add: strayAnswer_def)
  have n: "''Z'' \<noteq> []" by simp
  have ok: "optionClickOk (goodQuestion strayAnswer) 0" by (simp add: goodQuestion_def)
  have "JStr ''Z'' \<notin> set (elements (field strayAnswer ''options''))"
    by (simp add: strayAnswer_def elements_def)
  then show ?thesis using single_choice_click_ignores_options[OF t c n, of "goodQuestion strayAnswer"] ok by simp
qed

end
